theory Spec2Isabelle
  imports Complex_Main
begin

section \<open>JavaScript values\<close>

text \<open>
  The values the rate limiter and the component inspect with \<^verbatim>\<open>typeof\<close>, truthiness
  and \<^verbatim>\<open>===\<close>. A function or an object is identified by a number; an array is the
  list of its elements; numbers are integers here (no claim depends on fractions or NaN in
  an argument position).
\<close>

datatype jsval =
    JUndefined
  | JNull
  | JBool bool
  | JNum int
  | JStr string
  | JFun nat
  | JObj nat
  | JArr "jsval list"

fun typeof :: "jsval \<Rightarrow> string" where
  "typeof JUndefined = ''undefined''"
| "typeof JNull = ''object''"
| "typeof (JBool b) = ''boolean''"
| "typeof (JNum n) = ''number''"
| "typeof (JStr s) = ''string''"
| "typeof (JFun f) = ''function''"
| "typeof (JObj a) = ''object''"
| "typeof (JArr xs) = ''object''"

fun truthy :: "jsval \<Rightarrow> bool" where
  "truthy JUndefined = False"
| "truthy JNull = False"
| "truthy (JBool b) = b"
| "truthy (JNum n) = (n \<noteq> 0)"
| "truthy (JStr s) = (s \<noteq> [])"
| "truthy (JFun f) = True"
| "truthy (JObj a) = True"
| "truthy (JArr xs) = True"

datatype error = TypeError | Error string

section \<open>The rate limiter: throttle and debounce\<close>

text \<open>
  \<^verbatim>\<open>throttle(delay, noTrailing, callback, debounceMode)\<close> returns the closure
  \<^verbatim>\<open>wrapper\<close>. The four parameters, after the argument shift of lines 39-43, are the
  record \<open>limiter\<close>; the two closure variables \<^verbatim>\<open>timeoutID\<close> and \<^verbatim>\<open>lastExec\<close> live in
  the record \<open>world\<close>, next to the part of the host the closure talks to: the clock read by
  \<^verbatim>\<open>Number(new Date())\<close>, the table of pending timers behind \<^verbatim>\<open>setTimeout\<close> and
  \<^verbatim>\<open>clearTimeout\<close>, and the list of executions of \<^verbatim>\<open>callback\<close>. The table holds the
  timers this limiter has scheduled; the timers of anybody else have other handles, which
  the limiter never sees, and are left out.
\<close>

record limiter =
  delay :: int
  noTrailing :: jsval
  callback :: jsval
  debounceMode :: jsval

text \<open>One call of the wrapper: its \<^verbatim>\<open>this\<close> and its \<^verbatim>\<open>arguments\<close>.\<close>

type_synonym call = "jsval \<times> jsval list"

text \<open>
  What a pending timer runs when it fires: the closure \<^verbatim>\<open>exec\<close> of the call that
  scheduled it (it has captured that call's \<^verbatim>\<open>self\<close> and \<^verbatim>\<open>args\<close>), or the closure
  \<^verbatim>\<open>clear\<close>.
\<close>

datatype action = Exec call | Clear

record timer =
  tid :: nat
  due :: int
  act :: action

text \<open>An execution of the callback: when, which function, with which \<^verbatim>\<open>this\<close> and arguments.\<close>

type_synonym execution = "int \<times> nat \<times> call"

record world =
  now :: int
  timers :: "timer list"
  next_id :: nat
  timeoutID :: "nat option"
  lastExec :: int
  executed :: "execution list"

text \<open>
  Lines 28-43. A missing argument is \<^verbatim>\<open>undefined\<close>. When the second argument is not a
  boolean the arguments are shifted by one position.
\<close>

definition throttle :: "int \<Rightarrow> jsval \<Rightarrow> jsval \<Rightarrow> jsval \<Rightarrow> limiter" where
  "throttle d nt cb dm =
     (if typeof nt \<noteq> ''boolean''
      then \<lparr>delay = d, noTrailing = JUndefined, callback = nt, debounceMode = cb\<rparr>
      else \<lparr>delay = d, noTrailing = nt, callback = cb, debounceMode = dm\<rparr>)"

text \<open>Lines 127-129. Both branches call \<^verbatim>\<open>throttle\<close> with three arguments.\<close>

definition debounce :: "int \<Rightarrow> jsval \<Rightarrow> jsval \<Rightarrow> limiter" where
  "debounce d atBegin cb =
     (if cb = JUndefined
      then throttle d atBegin (JBool False) JUndefined
      else throttle d cb (JBool (atBegin \<noteq> JBool False)) JUndefined)"

text \<open>
  The closure state right after \<^verbatim>\<open>throttle\<close> returns (lines 33 and 36), on a host whose
  clock shows \<open>t0\<close> and that has no timer of this limiter pending. Timer handles are
  positive integers in a browser and objects in Node, hence always truthy: a stored handle
  is \<open>Some h\<close>, and \<^verbatim>\<open>undefined\<close> is \<open>None\<close>.
\<close>

definition init_world :: "int \<Rightarrow> world" where
  "init_world t0 =
     \<lparr>now = t0, timers = [], next_id = 1, timeoutID = None, lastExec = 0, executed = []\<rparr>"

text \<open>
  \<^verbatim>\<open>setTimeout(a, ms)\<close>: a fresh handle, due \<open>ms\<close> milliseconds from now (a negative
  timeout counts as 0). \<^verbatim>\<open>clearTimeout(h)\<close>: the timer with that handle is dropped; a
  handle that is no longer pending is ignored.
\<close>

definition setTimeout :: "action \<Rightarrow> int \<Rightarrow> world \<Rightarrow> nat \<times> world" where
  "setTimeout a ms w =
     (next_id w,
      w\<lparr>timers := timers w @ [\<lparr>tid = next_id w, due = now w + max 0 ms, act = a\<rparr>],
        next_id := Suc (next_id w)\<rparr>)"

definition clearTimeout :: "nat \<Rightarrow> world \<Rightarrow> world" where
  "clearTimeout h w = w\<lparr>timers := filter (\<lambda>t. tid t \<noteq> h) (timers w)\<rparr>"

text \<open>
  Lines 55-58, the closure \<^verbatim>\<open>exec\<close>: the timestamp is written first, then the callback
  is applied; applying a value that is not a function raises a TypeError. The callback
  itself is a collaborator: its run is an entry of \<open>executed\<close>, and it is taken not to call
  the wrapper again from inside.
\<close>

definition exec :: "limiter \<Rightarrow> call \<Rightarrow> world \<Rightarrow> error option \<times> world" where
  "exec L c w =
     (let w1 = w\<lparr>lastExec := now w\<rparr>
      in case callback L of
           JFun f \<Rightarrow> (None, w1\<lparr>executed := executed w1 @ [(now w1, f, c)]\<rparr>)
         | _ \<Rightarrow> (Some TypeError, w1))"

text \<open>Lines 62-64, the closure \<^verbatim>\<open>clear\<close>.\<close>

definition clear :: "world \<Rightarrow> world" where
  "clear w = w\<lparr>timeoutID := None\<rparr>"

text \<open>Lines 72-75.\<close>

definition clear_existing :: "world \<Rightarrow> world" where
  "clear_existing w = (case timeoutID w of Some h \<Rightarrow> clearTimeout h w | None \<Rightarrow> w)"

text \<open>
  Lines 48-95, one call of \<^verbatim>\<open>wrapper\<close>. \<open>elapsed\<close> is computed on entry, before anything
  else runs. An exception of \<^verbatim>\<open>exec\<close> leaves the wrapper at once.
\<close>

definition wrapper :: "limiter \<Rightarrow> call \<Rightarrow> world \<Rightarrow> error option \<times> world" where
  "wrapper L c w =
     (let elapsed = now w - lastExec w;
          r1 = (if truthy (debounceMode L) \<and> timeoutID w = None then exec L c w else (None, w))
      in case fst r1 of
           Some e \<Rightarrow> (Some e, snd r1)
         | None \<Rightarrow>
             let w2 = clear_existing (snd r1)
             in if debounceMode L = JUndefined \<and> elapsed > delay L then exec L c w2
                else if noTrailing L \<noteq> JBool True then
                  let r3 = setTimeout (if truthy (debounceMode L) then Clear else Exec c)
                             (if debounceMode L = JUndefined then delay L - elapsed else delay L) w2
                  in (None, (snd r3)\<lparr>timeoutID := Some (fst r3)\<rparr>)
                else (None, w2))"

text \<open>
  A timer that fires runs its closure; an exception raised there goes to the host and the
  limiter goes on.
\<close>

definition fire :: "limiter \<Rightarrow> timer \<Rightarrow> world \<Rightarrow> world" where
  "fire L t w = (case act t of Exec c \<Rightarrow> snd (exec L c w) | Clear \<Rightarrow> clear w)"

text \<open>
  The clock moves to \<open>t\<close> and every timer that is due by then fires, in the order
  of their due times (the earlier scheduled first among equals); what they run reads the
  clock at \<open>t\<close>. A timer may so fire later than it was due, never earlier.
\<close>

definition tick :: "limiter \<Rightarrow> int \<Rightarrow> world \<Rightarrow> world" where
  "tick L t w =
     fold (fire L) (sort_key due (filter (\<lambda>x. due x \<le> t) (timers w)))
       (w\<lparr>now := t, timers := filter (\<lambda>x. \<not> due x \<le> t) (timers w)\<rparr>)"

text \<open>What happens to a limiter: it is called, or time passes.\<close>

datatype event = Call call | Tick int

fun step :: "limiter \<Rightarrow> event \<Rightarrow> world \<Rightarrow> world" where
  "step L (Call c) w = snd (wrapper L c w)"
| "step L (Tick t) w = tick L t w"

definition run :: "limiter \<Rightarrow> event list \<Rightarrow> world \<Rightarrow> world" where
  "run L es w = fold (step L) es w"

text \<open>
  The state of the timer table that every history keeps: nothing pending, or one timer,
  the one whose handle is in \<^verbatim>\<open>timeoutID\<close>.
\<close>

definition own_timer :: "world \<Rightarrow> bool" where
  "own_timer w =
     (case timers w of
        [] \<Rightarrow> True
      | [t] \<Rightarrow> timeoutID w = Some (tid t)
      | _ \<Rightarrow> False)"

text \<open>
  A burst: after a first call, more calls, each at its own clock reading. \<open>close_calls\<close>
  says that each call comes less than \<open>d\<close> after the one before it.
\<close>

fun burst :: "(int \<times> call) list \<Rightarrow> event list" where
  "burst [] = []"
| "burst ((t, c) # tcs) = Tick t # Call c # burst tcs"

fun close_calls :: "int \<Rightarrow> int \<Rightarrow> (int \<times> call) list \<Rightarrow> bool" where
  "close_calls d t0 [] = True"
| "close_calls d t0 ((t, c) # tcs) = (t < t0 + d \<and> close_calls d t tcs)"

definition last_time :: "int \<Rightarrow> (int \<times> call) list \<Rightarrow> int" where
  "last_time t0 tcs = last (t0 # map fst tcs)"

definition last_call :: "call \<Rightarrow> (int \<times> call) list \<Rightarrow> call" where
  "last_call c0 tcs = last (c0 # map snd tcs)"

section \<open>The component\<close>

text \<open>
  The component keeps \<^verbatim>\<open>this.props\<close>, \<^verbatim>\<open>this.state\<close>, the canvas reference
  \<^verbatim>\<open>this._canvas\<close> and the drawing engine \<^verbatim>\<open>this._signaturePad\<close>. The canvas element,
  the engine (the library \<^verbatim>\<open>signature_pad\<close>), the window and the framework's
  \<^verbatim>\<open>setState\<close> are collaborators; they are modelled by what the component reads from
  them and by the list \<open>trace\<close> of the calls and assignments the component makes on them, in
  order. Sizes and the pixel ratio are rationals: no claim depends on rounding.
\<close>

record props =
  p_width :: "rat option"
  p_height :: "rat option"
  redrawOnResize :: bool
  debounceInterval :: int

text \<open>
  The canvas element: the size the layout reports, the \<^verbatim>\<open>width\<close> and \<^verbatim>\<open>height\<close>
  attributes, \<^verbatim>\<open>style.width\<close>, and the scale of its 2d context (assigning a dimension
  resets the context to the identity).
\<close>

record canvas =
  offsetWidth :: rat
  offsetHeight :: rat
  c_width :: rat
  c_height :: rat
  style_width :: string
  ctx_scale :: "rat \<times> rat"

datatype pad_property =
  DotSize | MinWidth | MaxWidth | Throttle | BackgroundColor | PenColor | VelocityFilterWeight

text \<open>
  The drawing engine by its contract: the picture it has drawn, written as the data URL
  that \<^verbatim>\<open>toDataURL\<close> gives for it (\<open>[]\<close> is the blank picture), its stroke data, what
  \<^verbatim>\<open>isEmpty\<close> reports, whether input capture is on, and its mutable properties. How
  stroke data is rendered into the picture, and the image format that \<^verbatim>\<open>toDataURL\<close>
  is asked for, are the engine's business and are left out.
\<close>

record sigpad =
  pixels :: string
  strokes :: jsval
  empty_flag :: bool
  capturing :: bool
  pad_onBegin :: jsval
  pad_onEnd :: jsval
  settings :: "pad_property \<Rightarrow> jsval"

datatype effect =
    CanvasStyleWidth string
  | CanvasWidth rat
  | CanvasHeight rat
  | SetState rat rat
  | GetContext2d
  | CtxScale rat rat
  | AddResizeListener
  | RemoveResizeListener
  | NewSigPad
  | Pad string "jsval list"

record component =
  props :: props
  canvasWidth :: rat
  canvasHeight :: rat
  canvas_ref :: "canvas option"
  signaturePad :: "sigpad option"
  devicePixelRatio :: "rat option"
  resize_listener :: bool
  trace :: "effect list"

text \<open>Truthiness of a property that is a number or \<^verbatim>\<open>undefined\<close>: 0 is falsy.\<close>

definition present :: "rat option \<Rightarrow> bool" where
  "present x = (case x of Some v \<Rightarrow> v \<noteq> 0 | None \<Rightarrow> False)"

definition js_or :: "rat option \<Rightarrow> rat \<Rightarrow> rat" where
  "js_or x y = (if present x then the x else y)"

text \<open>
  Lines 196-205, the constructor, and the \<^verbatim>\<open>ref\<close> callback of \<^verbatim>\<open>render\<close> (lines
  324-326). \<open>handleResize_fn\<close> names the bound function \<^verbatim>\<open>this.handleResize.bind(this)\<close>.
\<close>

definition construct :: "props \<Rightarrow> rat option \<Rightarrow> component" where
  "construct p dpr =
     \<lparr>props = p, canvasWidth = 0, canvasHeight = 0, canvas_ref = None, signaturePad = None,
      devicePixelRatio = dpr, resize_listener = False, trace = []\<rparr>"

definition handleResize_fn :: nat where
  "handleResize_fn = 0"

definition callResizeHandler :: "props \<Rightarrow> limiter" where
  "callResizeHandler p = debounce (debounceInterval p) (JFun handleResize_fn) JUndefined"

definition ref :: "canvas option \<Rightarrow> component \<Rightarrow> component" where
  "ref r s = s\<lparr>canvas_ref := r\<rparr>"

text \<open>The engine's methods, as far as the component relies on them.\<close>

definition new_SigPad :: sigpad where
  "new_SigPad =
     \<lparr>pixels = [], strokes = JArr [], empty_flag = True, capturing = True,
      pad_onBegin = JUndefined, pad_onEnd = JUndefined, settings = (\<lambda>k. JUndefined)\<rparr>"

definition pad_clear :: "sigpad \<Rightarrow> sigpad" where
  "pad_clear p = p\<lparr>pixels := [], strokes := JArr [], empty_flag := True\<rparr>"

definition pad_fromDataURL :: "jsval \<Rightarrow> sigpad \<Rightarrow> sigpad" where
  "pad_fromDataURL d p =
     (case d of
        JStr u \<Rightarrow> p\<lparr>pixels := u, empty_flag := False\<rparr>
      | _ \<Rightarrow> p\<lparr>empty_flag := False\<rparr>)"

definition pad_fromData :: "jsval \<Rightarrow> sigpad \<Rightarrow> sigpad" where
  "pad_fromData d p = p\<lparr>strokes := d, empty_flag := False\<rparr>"

text \<open>
  A method call \<^verbatim>\<open>this._signaturePad.m(...)\<close>: dereferencing \<^verbatim>\<open>undefined\<close> raises a
  TypeError; otherwise the engine runs \<open>m\<close>, which gives a result and the engine's new
  state, and the call is noted in the trace with its arguments.
\<close>

definition on_pad ::
  "string \<Rightarrow> jsval list \<Rightarrow> (sigpad \<Rightarrow> 'a \<times> sigpad) \<Rightarrow> component \<Rightarrow> (error + 'a) \<times> component"
  where
  "on_pad name args m s =
     (case signaturePad s of
        None \<Rightarrow> (Inl TypeError, s)
      | Some p \<Rightarrow>
          (Inr (fst (m p)),
           s\<lparr>signaturePad := Some (snd (m p)), trace := trace s @ [Pad name args]\<rparr>))"

text \<open>Lines 238-277, the proxied methods.\<close>

definition isEmpty :: "component \<Rightarrow> (error + bool) \<times> component" where
  "isEmpty s = on_pad ''isEmpty'' [] (\<lambda>p. (empty_flag p, p)) s"

definition clear_pad :: "component \<Rightarrow> (error + unit) \<times> component" where
  "clear_pad s = on_pad ''clear'' [] (\<lambda>p. ((), pad_clear p)) s"

definition fromDataURL :: "jsval \<Rightarrow> component \<Rightarrow> (error + unit) \<times> component" where
  "fromDataURL base64String s =
     on_pad ''fromDataURL'' [base64String] (\<lambda>p. ((), pad_fromDataURL base64String p)) s"

definition toDataURL :: "jsval \<Rightarrow> component \<Rightarrow> (error + jsval) \<times> component" where
  "toDataURL mime s = on_pad ''toDataURL'' [mime] (\<lambda>p. (JStr (pixels p), p)) s"

definition fromData :: "jsval \<Rightarrow> component \<Rightarrow> (error + unit) \<times> component" where
  "fromData d s = on_pad ''fromData'' [d] (\<lambda>p. ((), pad_fromData d p)) s"

definition toData :: "component \<Rightarrow> (error + jsval) \<times> component" where
  "toData s = on_pad ''toData'' [] (\<lambda>p. (strokes p, p)) s"

definition off :: "component \<Rightarrow> (error + unit) \<times> component" where
  "off s = on_pad ''off'' [] (\<lambda>p. ((), p\<lparr>capturing := False\<rparr>)) s"

definition on :: "component \<Rightarrow> (error + unit) \<times> component" where
  "on s = on_pad ''on'' [] (\<lambda>p. ((), p\<lparr>capturing := True\<rparr>)) s"

text \<open>
  Lines 340-394, the plain accessors: \<^verbatim>\<open>this._signaturePad.k\<close> is read or assigned,
  with no check.
\<close>

definition get_property :: "pad_property \<Rightarrow> component \<Rightarrow> error + jsval" where
  "get_property k s =
     (case signaturePad s of None \<Rightarrow> Inl TypeError | Some p \<Rightarrow> Inr (settings p k))"

definition set_property :: "pad_property \<Rightarrow> jsval \<Rightarrow> component \<Rightarrow> error option \<times> component" where
  "set_property k v s =
     (case signaturePad s of
        None \<Rightarrow> (Some TypeError, s)
      | Some p \<Rightarrow> (None, s\<lparr>signaturePad := Some (p\<lparr>settings := (settings p)(k := v)\<rparr>)\<rparr>))"

text \<open>Lines 396-412, the two checked setters.\<close>

definition callable :: "jsval \<Rightarrow> bool" where
  "callable fn = (truthy fn \<and> typeof fn = ''function'')"

definition set_onBegin :: "jsval \<Rightarrow> component \<Rightarrow> error option \<times> component" where
  "set_onBegin fn s =
     (if \<not> callable fn then (Some (Error ''Invalid argument passed to onBegin()''), s)
      else case signaturePad s of
             None \<Rightarrow> (Some TypeError, s)
           | Some p \<Rightarrow> (None, s\<lparr>signaturePad := Some (p\<lparr>pad_onBegin := fn\<rparr>)\<rparr>))"

definition set_onEnd :: "jsval \<Rightarrow> component \<Rightarrow> error option \<times> component" where
  "set_onEnd fn s =
     (if \<not> callable fn then (Some (Error ''Invalid argument passed to onEnd()''), s)
      else case signaturePad s of
             None \<Rightarrow> (Some TypeError, s)
           | Some p \<Rightarrow> (None, s\<lparr>signaturePad := Some (p\<lparr>pad_onEnd := fn\<rparr>)\<rparr>))"

text \<open>
  Lines 286-287: \<^verbatim>\<open>this.props.width || this._canvas.offsetWidth\<close>. The canvas is read
  only when the property is falsy, and reading it through a missing reference raises.
\<close>

definition dimension :: "rat option \<Rightarrow> (canvas \<Rightarrow> rat) \<Rightarrow> canvas option \<Rightarrow> error + rat" where
  "dimension pw offset cv =
     (if present pw then Inr (the pw)
      else case cv of None \<Rightarrow> Inl TypeError | Some c \<Rightarrow> Inr (offset c))"

text \<open>
  Lines 285-287: the target size, \<open>(ratio, width, height)\<close>, or the TypeError of a missing
  canvas.
\<close>

definition target :: "component \<Rightarrow> error + rat \<times> rat \<times> rat" where
  "target s =
     (let ratio = max (js_or (devicePixelRatio s) 1) 1
      in case dimension (p_width (props s)) offsetWidth (canvas_ref s) of
           Inl e \<Rightarrow> Inl e
         | Inr w \<Rightarrow>
             (case dimension (p_height (props s)) offsetHeight (canvas_ref s) of
                Inl e \<Rightarrow> Inl e
              | Inr h \<Rightarrow> Inr (ratio, w * ratio, h * ratio)))"

text \<open>
  Lines 301-302. Assigning a dimension of the canvas clears its bitmap, which is the picture
  of the engine drawing on it, and resets its context.
\<close>

definition resize_canvas :: "rat \<Rightarrow> rat \<Rightarrow> canvas \<Rightarrow> component \<Rightarrow> component" where
  "resize_canvas width height cv s =
     s\<lparr>canvas_ref := Some (cv\<lparr>c_width := width, c_height := height, ctx_scale := (1, 1)\<rparr>),
       signaturePad := map_option (\<lambda>p. p\<lparr>pixels := []\<rparr>) (signaturePad s),
       trace := trace s @ [CanvasWidth width, CanvasHeight height]\<rparr>"

text \<open>
  Line 304. \<^verbatim>\<open>setState\<close> is taken to have updated \<^verbatim>\<open>this.state\<close> by the time the
  component runs again.
\<close>

definition setState :: "rat \<Rightarrow> rat \<Rightarrow> component \<Rightarrow> component" where
  "setState width height s =
     s\<lparr>canvasWidth := width, canvasHeight := height, trace := trace s @ [SetState width height]\<rparr>"

text \<open>Lines 306-307.\<close>

definition scale_context :: "rat \<Rightarrow> component \<Rightarrow> component" where
  "scale_context ratio s =
     s\<lparr>canvas_ref :=
         map_option (\<lambda>cv. cv\<lparr>ctx_scale := (fst (ctx_scale cv) * ratio, snd (ctx_scale cv) * ratio)\<rparr>)
           (canvas_ref s),
       trace := trace s @ [GetContext2d, CtxScale ratio ratio]\<rparr>"

text \<open>Lines 284-314.\<close>

definition scaleCanvas :: "component \<Rightarrow> error option \<times> component" where
  "scaleCanvas s =
     (case target s of
        Inl e \<Rightarrow> (Some e, s)
      | Inr (ratio, width, height) \<Rightarrow>
          (if width = canvasWidth s \<and> height = canvasHeight s then (None, s)
           else
             (let data = (case signaturePad s of
                            Some p \<Rightarrow> if redrawOnResize (props s) then JStr (pixels p) else JUndefined
                          | None \<Rightarrow> JUndefined);
                  s1 = (if redrawOnResize (props s) \<and> signaturePad s \<noteq> None
                        then s\<lparr>trace := trace s @ [Pad ''toDataURL'' []]\<rparr>
                        else s)
              in (case canvas_ref s1 of
                    None \<Rightarrow> (Some TypeError, s1)
                  | Some cv \<Rightarrow>
                      (let s2 = resize_canvas width height cv s1;
                           s3 = setState width height s2;
                           s4 = scale_context ratio s3
                       in if redrawOnResize (props s4) \<and> signaturePad s4 \<noteq> None then
                            (None, snd (on_pad ''fromDataURL'' [data]
                                          (\<lambda>p. ((), pad_fromDataURL data p)) s4))
                          else if signaturePad s4 \<noteq> None then
                            (None, snd (on_pad ''clear'' [] (\<lambda>p. ((), pad_clear p)) s4))
                          else (None, s4))))))"

text \<open>Lines 279-281.\<close>

definition handleResize :: "component \<Rightarrow> error option \<times> component" where
  "handleResize s = scaleCanvas s"

text \<open>Lines 211 and 216, and again line 226.\<close>

definition listens :: "props \<Rightarrow> bool" where
  "listens p = (\<not> present (p_width p) \<or> \<not> present (p_height p))"

text \<open>Lines 209-222.\<close>

definition componentDidMount :: "component \<Rightarrow> error option \<times> component" where
  "componentDidMount s =
     (case canvas_ref s of
        None \<Rightarrow> (None, s)
      | Some cv \<Rightarrow>
          let s1 = (if listens (props s)
                    then s\<lparr>canvas_ref := Some (cv\<lparr>style_width := ''100%''\<rparr>),
                           trace := trace s @ [CanvasStyleWidth ''100%'']\<rparr>
                    else s);
              r2 = scaleCanvas s1
          in (case fst r2 of
                Some e \<Rightarrow> (Some e, snd r2)
              | None \<Rightarrow>
                  (let s3 = (if listens (props (snd r2))
                             then (snd r2)\<lparr>resize_listener := True,
                                           trace := trace (snd r2) @ [AddResizeListener]\<rparr>
                             else snd r2)
                   in (None, s3\<lparr>signaturePad := Some new_SigPad,
                                trace := trace s3 @ [NewSigPad]\<rparr>))))"

text \<open>Lines 225-231.\<close>

definition componentWillUnmount :: "component \<Rightarrow> error option \<times> component" where
  "componentWillUnmount s =
     (let s1 = (if listens (props s)
                then s\<lparr>resize_listener := False, trace := trace s @ [RemoveResizeListener]\<rparr>
                else s);
          r = off s1
      in (case fst r of Inl e \<Rightarrow> Some e | Inr u \<Rightarrow> None, snd r))"

text \<open>How many times the dimensions of the canvas were assigned.\<close>

definition dimension_changes :: "effect list \<Rightarrow> nat" where
  "dimension_changes tr = length (filter (\<lambda>e. case e of CanvasWidth w \<Rightarrow> True | _ \<Rightarrow> False) tr)"

text \<open>
  Lines 426-429, \<^verbatim>\<open>defaultProps\<close>, and two canvas elements for the examples below: one
  as the browser creates it, 300 by 150, and one that the layout hides, so that its offset
  size is 0 by 0.
\<close>

definition defaultProps :: props where
  "defaultProps =
     \<lparr>p_width = None, p_height = None, redrawOnResize = False, debounceInterval = 150\<rparr>"

definition canvas_300x150 :: canvas where
  "canvas_300x150 =
     \<lparr>offsetWidth = 300, offsetHeight = 150, c_width = 300, c_height = 150,
      style_width = [], ctx_scale = (1, 1)\<rparr>"

definition canvas_hidden :: canvas where
  "canvas_hidden =
     \<lparr>offsetWidth = 0, offsetHeight = 0, c_width = 300, c_height = 150,
      style_width = [], ctx_scale = (1, 1)\<rparr>"

text \<open>
  A component that was constructed, rendered and mounted on a screen of pixel ratio 2, on
  which the picture \<open>''X''\<close> was then drawn, and whose window has moved to a screen of
  pixel ratio 3.
\<close>

definition drawn_then_moved :: "bool \<Rightarrow> component" where
  "drawn_then_moved redraw =
     (snd (fromDataURL (JStr ''X'')
        (snd (componentDidMount
           (ref (Some canvas_300x150)
              (construct (defaultProps\<lparr>redrawOnResize := redraw\<rparr>) (Some 2)))))))
     \<lparr>devicePixelRatio := Some 3\<rparr>"

section \<open>Properties of the rate limiter\<close>

subsection \<open>The closures and the timer table\<close>

lemma own_timer_cases:
  "own_timer w \<longleftrightarrow> timers w = [] \<or> (\<exists>t. timers w = [t] \<and> timeoutID w = Some (tid t))"
  by (auto simp: own_timer_def split: list.splits)

lemma own_timer_init: "own_timer (init_world t0)"
  by (simp add: own_timer_def init_world_def)

lemma exec_fields:
  "timers (snd (exec L c w)) = timers w"
  "timeoutID (snd (exec L c w)) = timeoutID w"
  "next_id (snd (exec L c w)) = next_id w"
  "now (snd (exec L c w)) = now w"
  "lastExec (snd (exec L c w)) = now w"
  by (simp_all add: exec_def Let_def split: jsval.splits)

lemma exec_fun:
  "callback L = JFun f \<Longrightarrow>
   exec L c w = (None, w\<lparr>lastExec := now w, executed := executed w @ [(now w, f, c)]\<rparr>)"
  by (simp add: exec_def Let_def)

lemma exec_log_cases:
  "executed (snd (exec L c w)) = executed w \<or> (\<exists>f. executed (snd (exec L c w)) = executed w @ [(now w, f, c)])"
  by (simp add: exec_def Let_def split: jsval.splits)

lemma timers_clear_existing: "own_timer w \<Longrightarrow> timers (clear_existing w) = []"
  by (auto simp: own_timer_cases clear_existing_def clearTimeout_def split: option.splits)

lemma clear_existing_fields:
  "timeoutID (clear_existing w) = timeoutID w"
  "next_id (clear_existing w) = next_id w"
  "now (clear_existing w) = now w"
  "lastExec (clear_existing w) = lastExec w"
  "executed (clear_existing w) = executed w"
  by (simp_all add: clear_existing_def clearTimeout_def split: option.splits)

lemma own_timer_exec: "own_timer w \<Longrightarrow> own_timer (snd (exec L c w))"
  by (simp add: own_timer_cases exec_fields)

lemma own_timer_empty: "timers w = [] \<Longrightarrow> own_timer w"
  by (simp add: own_timer_def)

lemma wrapper_timers:
  assumes "own_timer w"
  shows "timers (snd (wrapper L c w)) = [] \<or>
         (\<exists>t. timers (snd (wrapper L c w)) = [t] \<and> tid t = next_id w \<and>
              timeoutID (snd (wrapper L c w)) = Some (next_id w))"
proof -
  define r1 where
    "r1 = (if truthy (debounceMode L) \<and> timeoutID w = None then exec L c w else (None, w))"
  define w2 where "w2 = clear_existing (snd r1)"
  have o1: "own_timer (snd r1)" using assms by (simp add: r1_def own_timer_exec)
  have n2: "next_id w2 = next_id w" by (simp add: w2_def r1_def exec_fields clear_existing_fields)
  have e2: "timers w2 = []" unfolding w2_def using o1 by (rule timers_clear_existing)
  show ?thesis
  proof (cases "fst r1")
    case (Some e)
    then have "truthy (debounceMode L) \<and> timeoutID w = None"
      by (auto simp: r1_def split: if_splits)
    then have "timers w = []" "r1 = exec L c w" using assms by (auto simp: own_timer_cases r1_def)
    moreover have "wrapper L c w = (Some e, snd r1)"
      using Some by (simp add: wrapper_def Let_def r1_def)
    ultimately show ?thesis by (simp add: exec_fields)
  next
    case None
    then have wr: "wrapper L c w =
      (if debounceMode L = JUndefined \<and> now w - lastExec w > delay L then exec L c w2
       else if noTrailing L \<noteq> JBool True then
         (None, (snd (setTimeout (if truthy (debounceMode L) then Clear else Exec c)
            (if debounceMode L = JUndefined then delay L - (now w - lastExec w) else delay L) w2))
            \<lparr>timeoutID := Some (fst (setTimeout (if truthy (debounceMode L) then Clear else Exec c)
            (if debounceMode L = JUndefined then delay L - (now w - lastExec w) else delay L) w2))\<rparr>)
       else (None, w2))"
      by (simp add: wrapper_def Let_def r1_def w2_def)
    show ?thesis unfolding wr using e2 n2
      by (simp add: exec_fields setTimeout_def)
  qed
qed

lemma own_timer_wrapper: "own_timer w \<Longrightarrow> own_timer (snd (wrapper L c w))"
  using wrapper_timers[of w L c] by (auto simp: own_timer_cases)

lemma fire_fields: "timers (fire L t w) = timers w"
  by (simp add: fire_def clear_def exec_fields split: action.splits)

lemma tick_nothing_due:
  "\<forall>x\<in>set (timers w). \<not> due x \<le> t \<Longrightarrow> tick L t w = w\<lparr>now := t\<rparr>"
proof -
  assume a: "\<forall>x\<in>set (timers w). \<not> due x \<le> t"
  then have "filter (\<lambda>x. due x \<le> t) (timers w) = []" by (simp add: filter_empty_conv)
  moreover from a have "filter (\<lambda>x. \<not> due x \<le> t) (timers w) = timers w"
    by (simp add: filter_id_conv)
  ultimately show ?thesis by (simp add: tick_def)
qed

lemma tick_single_due:
  "timers w = [x] \<Longrightarrow> due x \<le> t \<Longrightarrow> tick L t w = fire L x (w\<lparr>now := t, timers := []\<rparr>)"
  by (simp add: tick_def)

lemma own_timer_tick: "own_timer w \<Longrightarrow> own_timer (tick L t w)"
proof -
  assume o: "own_timer w"
  show ?thesis
  proof (cases "\<forall>x\<in>set (timers w). \<not> due x \<le> t")
    case True
    then show ?thesis using o by (simp add: tick_nothing_due own_timer_cases)
  next
    case False
    then obtain x where x: "timers w = [x]" "due x \<le> t"
      using o by (auto simp: own_timer_cases)
    then have "timers (tick L t w) = []" by (simp add: tick_single_due fire_fields)
    then show ?thesis by (rule own_timer_empty)
  qed
qed

lemma own_timer_step: "own_timer w \<Longrightarrow> own_timer (step L e w)"
  by (cases e) (simp_all add: own_timer_wrapper own_timer_tick)

lemma own_timer_run: "own_timer w \<Longrightarrow> own_timer (run L es w)"
  unfolding run_def by (induction es arbitrary: w) (simp_all add: own_timer_step)

lemma own_timer_reach: "own_timer (run L es (init_world t0))"
  by (simp add: own_timer_run own_timer_init)

subsection \<open>One call of the wrapper, mode by mode\<close>

lemma clear_existing_own: "own_timer w \<Longrightarrow> clear_existing w = w\<lparr>timers := []\<rparr>"
  by (auto simp: own_timer_cases clear_existing_def clearTimeout_def split: option.splits)

lemma wrapper_throttle_exec:
  assumes "debounceMode L = JUndefined" "callback L = JFun f" "own_timer w"
    "delay L < now w - lastExec w"
  shows "wrapper L c w =
    (None, w\<lparr>timers := [], lastExec := now w, executed := executed w @ [(now w, f, c)]\<rparr>)"
  using assms by (simp add: wrapper_def Let_def clear_existing_own exec_fun)

lemma wrapper_throttle_defer:
  assumes "debounceMode L = JUndefined" "own_timer w"
    "\<not> delay L < now w - lastExec w" "noTrailing L \<noteq> JBool True"
  shows "wrapper L c w =
    (None, w\<lparr>timers := [\<lparr>tid = next_id w, due = lastExec w + delay L, act = Exec c\<rparr>],
             next_id := Suc (next_id w), timeoutID := Some (next_id w)\<rparr>)"
  using assms by (simp add: wrapper_def Let_def clear_existing_own setTimeout_def max_def)

lemma wrapper_throttle_drop:
  assumes "debounceMode L = JUndefined" "own_timer w"
    "\<not> delay L < now w - lastExec w" "noTrailing L = JBool True"
  shows "wrapper L c w = (None, w\<lparr>timers := []\<rparr>)"
  using assms by (simp add: wrapper_def Let_def clear_existing_own)

lemma wrapper_debounce_trailing:
  assumes "debounceMode L = JBool False" "own_timer w" "noTrailing L \<noteq> JBool True"
  shows "wrapper L c w =
    (None, w\<lparr>timers := [\<lparr>tid = next_id w, due = now w + max 0 (delay L), act = Exec c\<rparr>],
             next_id := Suc (next_id w), timeoutID := Some (next_id w)\<rparr>)"
  using assms by (simp add: wrapper_def Let_def clear_existing_own setTimeout_def)

lemma tick_fires_exec:
  assumes "timers w = [x]" "act x = Exec c" "due x \<le> T" "callback L = JFun f"
  shows "tick L T w =
    w\<lparr>now := T, timers := [], lastExec := T, executed := executed w @ [(T, f, c)]\<rparr>"
  using assms by (simp add: tick_single_due fire_def exec_fun)







lemma debounce_two_args:
  "debounce d (JFun f) JUndefined =
   \<lparr>delay = d, noTrailing = JUndefined, callback = JFun f, debounceMode = JBool False\<rparr>"
  by (simp add: debounce_def throttle_def)


subsection \<open>A burst of calls in trailing debounce mode\<close>

lemma call_trailing_step:
  assumes "debounceMode L = JBool False" "noTrailing L \<noteq> JBool True" "0 \<le> delay L"
    "own_timer w"
  shows "step L (Call c) w =
    w\<lparr>timers := [\<lparr>tid = next_id w, due = now w + delay L, act = Exec c\<rparr>],
      next_id := Suc (next_id w), timeoutID := Some (next_id w)\<rparr>"
  using assms by (simp add: wrapper_debounce_trailing)

lemma burst_nil:
  assumes L: "debounceMode L = JBool False" "noTrailing L \<noteq> JBool True" "callback L = JFun f"
    and d: "0 \<le> delay L" and o: "own_timer w"
  shows "executed (run L [Call c, Tick (now w + delay L)] w) =
    executed w @ [(now w + delay L, f, c)]"
proof -
  define w1 where "w1 = step L (Call c) w"
  have w1: "w1 = w\<lparr>timers := [\<lparr>tid = next_id w, due = now w + delay L, act = Exec c\<rparr>],
      next_id := Suc (next_id w), timeoutID := Some (next_id w)\<rparr>"
    unfolding w1_def using L(1,2) d o by (rule call_trailing_step)
  have "tick L (now w + delay L) w1 =
    w1\<lparr>now := now w + delay L, timers := [], lastExec := now w + delay L,
        executed := executed w1 @ [(now w + delay L, f, c)]\<rparr>"
    by (rule tick_fires_exec[where x = "\<lparr>tid = next_id w, due = now w + delay L, act = Exec c\<rparr>"])
       (simp_all add: w1 L)
  moreover have "run L [Call c, Tick (now w + delay L)] w = tick L (now w + delay L) w1"
    by (simp add: run_def w1_def)
  moreover have "executed w1 = executed w" by (simp add: w1)
  ultimately show ?thesis by simp
qed

lemma burst_trailing:
  assumes L: "debounceMode L = JBool False" "noTrailing L \<noteq> JBool True" "callback L = JFun f"
    and d: "0 \<le> delay L"
  shows "own_timer w \<Longrightarrow> close_calls (delay L) (now w) tcs \<Longrightarrow>
    executed (run L (Call c # burst tcs @ [Tick (last_time (now w) tcs + delay L)]) w) =
    executed w @ [(last_time (now w) tcs + delay L, f, last_call c tcs)]"
proof (induction tcs arbitrary: w c)
  case Nil
  then show ?case using burst_nil[OF L d, of w c] by (simp add: last_time_def last_call_def)
next
  case (Cons tc tcs)
  obtain t c' where tc: "tc = (t, c')" by (cases tc)
  have close: "t < now w + delay L" "close_calls (delay L) t tcs"
    using Cons.prems(2) by (simp_all add: tc)
  define w1 where "w1 = step L (Call c) w"
  have w1: "w1 = w\<lparr>timers := [\<lparr>tid = next_id w, due = now w + delay L, act = Exec c\<rparr>],
      next_id := Suc (next_id w), timeoutID := Some (next_id w)\<rparr>"
    unfolding w1_def using L(1,2) d Cons.prems(1) by (rule call_trailing_step)
  define w2 where "w2 = w1\<lparr>now := t\<rparr>"
  have "tick L t w1 = w1\<lparr>now := t\<rparr>"
    by (rule tick_nothing_due) (use close in \<open>simp add: w1\<close>)
  then have t2: "step L (Tick t) w1 = w2" by (simp add: w2_def)
  have o2: "own_timer w2" by (simp add: w2_def w1 own_timer_def)
  have n2: "now w2 = t" by (simp add: w2_def)
  have e2: "executed w2 = executed w" by (simp add: w2_def w1)
  have c2: "close_calls (delay L) (now w2) tcs" using close(2) by (simp add: n2)
  have ih: "executed (run L (Call c' # burst tcs @ [Tick (last_time (now w2) tcs + delay L)]) w2) =
      executed w2 @ [(last_time (now w2) tcs + delay L, f, last_call c' tcs)]"
    using o2 c2 by (rule Cons.IH)
  have lt: "last_time (now w) (tc # tcs) = last_time t tcs"
    by (simp add: last_time_def tc)
  have lc: "last_call c (tc # tcs) = last_call c' tcs"
    by (simp add: last_call_def tc)
  have r: "run L (Call c # burst (tc # tcs) @ [Tick T]) w =
      run L (Call c' # burst tcs @ [Tick T]) w2" for T
    unfolding run_def tc burst.simps append_Cons fold_simps w1_def[symmetric] t2
    by (rule refl)
  show ?case unfolding r lt lc using ih by (simp add: n2 e2)
qed

lemma burst_quiet:
  assumes L: "debounceMode L = JBool False" "noTrailing L \<noteq> JBool True"
    and d: "0 \<le> delay L"
  shows "own_timer w \<Longrightarrow> close_calls (delay L) (now w) tcs \<Longrightarrow>
    executed (run L (Call c # burst tcs) w) = executed w"
proof (induction tcs arbitrary: w c)
  case Nil
  have "step L (Call c) w =
    w\<lparr>timers := [\<lparr>tid = next_id w, due = now w + delay L, act = Exec c\<rparr>],
      next_id := Suc (next_id w), timeoutID := Some (next_id w)\<rparr>"
    using L d Nil.prems(1) by (rule call_trailing_step)
  then have "executed (step L (Call c) w) = executed w" by simp
  then show ?case unfolding run_def burst.simps fold_simps .
next
  case (Cons tc tcs)
  obtain t c' where tc: "tc = (t, c')" by (cases tc)
  have close: "t < now w + delay L" "close_calls (delay L) t tcs"
    using Cons.prems(2) by (simp_all add: tc)
  define w1 where "w1 = step L (Call c) w"
  have w1: "w1 = w\<lparr>timers := [\<lparr>tid = next_id w, due = now w + delay L, act = Exec c\<rparr>],
      next_id := Suc (next_id w), timeoutID := Some (next_id w)\<rparr>"
    unfolding w1_def using L d Cons.prems(1) by (rule call_trailing_step)
  define w2 where "w2 = w1\<lparr>now := t\<rparr>"
  have "tick L t w1 = w1\<lparr>now := t\<rparr>"
    by (rule tick_nothing_due) (use close in \<open>simp add: w1\<close>)
  then have t2: "step L (Tick t) w1 = w2" by (simp add: w2_def)
  have o2: "own_timer w2" by (simp add: w2_def w1 own_timer_def)
  have n2: "now w2 = t" by (simp add: w2_def)
  have e2: "executed w2 = executed w" by (simp add: w2_def w1)
  have c2: "close_calls (delay L) (now w2) tcs" using close(2) by (simp add: n2)
  have ih: "executed (run L (Call c' # burst tcs) w2) = executed w2"
    using o2 c2 by (rule Cons.IH)
  have r: "run L (Call c # burst (tc # tcs)) w = run L (Call c' # burst tcs) w2"
    unfolding run_def tc burst.simps fold_simps w1_def[symmetric] t2
    by (rule refl)
  show ?case unfolding r using ih by (simp add: e2)
qed

lemma tick_before_due:
  assumes "timers w = [x]" "T < due x"
  shows "tick L T w = w\<lparr>now := T\<rparr>"
  by (rule tick_nothing_due) (use assms in simp)




section \<open>Claims about the rate limiter\<close>

lemmas limiter_eval =
  run_def tick_def fire_def wrapper_def exec_def clear_existing_def clearTimeout_def
  setTimeout_def clear_def init_world_def throttle_def debounce_def Let_def

text \<open>
  Claim C3. For every limiter, whatever its mode, and after every history of calls and
  clock ticks since its creation, at most one timer is pending; the clearing step of lines
  72-75 leaves none pending; and every timer that is pending when a call of the wrapper
  returns was scheduled by that very call (it carries the handle that \<^verbatim>\<open>setTimeout\<close>
  hands out during the call), so no earlier timer survives a call.
\<close>

theorem at_most_one_pending_timer:
  "length (timers (run L es (init_world t0))) \<le> 1 \<and>
   timers (clear_existing (run L es (init_world t0))) = [] \<and>
   (\<forall>t \<in> set (timers (snd (wrapper L c (run L es (init_world t0))))).
      tid t = next_id (run L es (init_world t0)))"
proof -
  have o: "own_timer (run L es (init_world t0))" by (rule own_timer_reach)
  then have "length (timers (run L es (init_world t0))) \<le> 1"
    by (auto simp: own_timer_cases)
  moreover have "timers (clear_existing (run L es (init_world t0))) = []"
    using o by (rule timers_clear_existing)
  moreover have "\<forall>t \<in> set (timers (snd (wrapper L c (run L es (init_world t0))))).
      tid t = next_id (run L es (init_world t0))"
    using wrapper_timers[OF o, of L c] by auto
  ultimately show ?thesis by simp
qed

theorem at_most_one_pending_timer_witness:
  "\<lparr>tid = 1, due = 1100, act = Exec (JNull, [JNum 2])\<rparr>
     \<in> set (timers (snd (wrapper (throttle 100 (JBool False) (JFun 7) JUndefined) (JNull, [JNum 2])
          (run (throttle 100 (JBool False) (JFun 7) JUndefined)
             [Call (JNull, [JNum 1]), Tick 1050] (init_world 1000))))) \<and>
   length (timers (run (throttle 100 (JBool False) (JFun 7) JUndefined)
             [Call (JNull, [JNum 1]), Tick 1050] (init_world 1000))) \<le> 1 \<and>
   tid \<lparr>tid = 1, due = 1100, act = Exec (JNull, [JNum 2])\<rparr> =
     next_id (run (throttle 100 (JBool False) (JFun 7) JUndefined)
             [Call (JNull, [JNum 1]), Tick 1050] (init_world 1000))"
  using at_most_one_pending_timer[of "throttle 100 (JBool False) (JFun 7) JUndefined"
     "[Call (JNull, [JNum 1]), Tick 1050]" 1000 "(JNull, [JNum 2])"]
  by (simp add: limiter_eval)

text \<open>
  Claim C1, as amended. In throttle mode (\<^verbatim>\<open>debounceMode\<close> undefined), with a callback
  that is a function, at any state the limiter can reach: a call made strictly more than
  \<open>delay\<close> after the last execution runs the callback at once, with the arguments of the
  call, and leaves no timer pending. A call made within \<open>delay\<close> of the last execution,
  when \<^verbatim>\<open>noTrailing\<close> is not \<^verbatim>\<open>true\<close>, runs nothing now and leaves exactly one timer
  pending, due at \<open>lastExec + delay\<close> and carrying the arguments of this call: when the
  clock reaches that time the callback runs with them, and not before. When \<^verbatim>\<open>noTrailing\<close>
  is \<^verbatim>\<open>true\<close> such a call is dropped: nothing runs and no timer is scheduled.
\<close>

theorem throttle_mode_call:
  assumes "debounceMode L = JUndefined" and "callback L = JFun f"
    and "w = run L es (init_world t0)"
  shows "(delay L < now w - lastExec w \<longrightarrow>
            wrapper L c w =
              (None, w\<lparr>timers := [], lastExec := now w,
                        executed := executed w @ [(now w, f, c)]\<rparr>)) \<and>
         (\<not> delay L < now w - lastExec w \<and> noTrailing L \<noteq> JBool True \<longrightarrow>
            wrapper L c w =
              (None, w\<lparr>timers := [\<lparr>tid = next_id w, due = lastExec w + delay L, act = Exec c\<rparr>],
                        next_id := Suc (next_id w), timeoutID := Some (next_id w)\<rparr>) \<and>
            (\<forall>T. lastExec w + delay L \<le> T \<longrightarrow>
                 executed (tick L T (snd (wrapper L c w))) = executed w @ [(T, f, c)]) \<and>
            (\<forall>T. T < lastExec w + delay L \<longrightarrow>
                 executed (tick L T (snd (wrapper L c w))) = executed w)) \<and>
         (\<not> delay L < now w - lastExec w \<and> noTrailing L = JBool True \<longrightarrow>
            wrapper L c w = (None, w\<lparr>timers := []\<rparr>))"
proof -
  have o: "own_timer w" unfolding assms(3) by (rule own_timer_reach)
  have a: "delay L < now w - lastExec w \<Longrightarrow>
      wrapper L c w =
        (None, w\<lparr>timers := [], lastExec := now w, executed := executed w @ [(now w, f, c)]\<rparr>)"
    using assms(1,2) o by (rule wrapper_throttle_exec)
  have b: "wrapper L c w =
        (None, w\<lparr>timers := [\<lparr>tid = next_id w, due = lastExec w + delay L, act = Exec c\<rparr>],
                  next_id := Suc (next_id w), timeoutID := Some (next_id w)\<rparr>)"
    if "\<not> delay L < now w - lastExec w" "noTrailing L \<noteq> JBool True"
    using assms(1) o that by (rule wrapper_throttle_defer)
  have b1: "executed (tick L T (snd (wrapper L c w))) = executed w @ [(T, f, c)]"
    if "\<not> delay L < now w - lastExec w" "noTrailing L \<noteq> JBool True"
      "lastExec w + delay L \<le> T" for T
  proof -
    have "tick L T (snd (wrapper L c w)) =
      (snd (wrapper L c w))\<lparr>now := T, timers := [], lastExec := T,
         executed := executed (snd (wrapper L c w)) @ [(T, f, c)]\<rparr>"
      by (rule tick_fires_exec[where
            x = "\<lparr>tid = next_id w, due = lastExec w + delay L, act = Exec c\<rparr>"])
         (use that assms(2) in \<open>simp_all add: b\<close>)
    then show ?thesis using that by (simp add: b)
  qed
  have b2: "executed (tick L T (snd (wrapper L c w))) = executed w"
    if "\<not> delay L < now w - lastExec w" "noTrailing L \<noteq> JBool True"
      "T < lastExec w + delay L" for T
  proof -
    have "tick L T (snd (wrapper L c w)) = (snd (wrapper L c w))\<lparr>now := T\<rparr>"
      by (rule tick_before_due[where
            x = "\<lparr>tid = next_id w, due = lastExec w + delay L, act = Exec c\<rparr>"])
         (use that in \<open>simp_all add: b\<close>)
    then show ?thesis using that by (simp add: b)
  qed
  have c: "wrapper L c w = (None, w\<lparr>timers := []\<rparr>)"
    if "\<not> delay L < now w - lastExec w" "noTrailing L = JBool True"
    using assms(1) o that by (rule wrapper_throttle_drop)
  show ?thesis using a b b1 b2 c by blast
qed

text \<open>
  The three cases at \<open>delay = 100\<close>: a first call at 1000, a second call at 1050 with and
  without \<^verbatim>\<open>noTrailing\<close>.
\<close>

theorem throttle_mode_call_witness:
  "debounceMode (throttle 100 (JBool False) (JFun 7) JUndefined) = JUndefined \<and>
   callback (throttle 100 (JBool False) (JFun 7) JUndefined) = JFun 7 \<and>
   delay (throttle 100 (JBool False) (JFun 7) JUndefined)
     < now (init_world 1000) - lastExec (init_world 1000) \<and>
   wrapper (throttle 100 (JBool False) (JFun 7) JUndefined) (JNull, [JNum 1])
       (run (throttle 100 (JBool False) (JFun 7) JUndefined) [] (init_world 1000)) =
     (None, \<lparr>now = 1000, timers = [], next_id = 1, timeoutID = None, lastExec = 1000,
             executed = [(1000, 7, JNull, [JNum 1])]\<rparr>) \<and>
   wrapper (throttle 100 (JBool False) (JFun 7) JUndefined) (JNull, [JNum 2])
       (run (throttle 100 (JBool False) (JFun 7) JUndefined)
          [Call (JNull, [JNum 1]), Tick 1050] (init_world 1000)) =
     (None, \<lparr>now = 1050, timers = [\<lparr>tid = 1, due = 1100, act = Exec (JNull, [JNum 2])\<rparr>],
             next_id = 2, timeoutID = Some 1, lastExec = 1000,
             executed = [(1000, 7, JNull, [JNum 1])]\<rparr>) \<and>
   executed (tick (throttle 100 (JBool False) (JFun 7) JUndefined) 1100
      (snd (wrapper (throttle 100 (JBool False) (JFun 7) JUndefined) (JNull, [JNum 2])
         (run (throttle 100 (JBool False) (JFun 7) JUndefined)
            [Call (JNull, [JNum 1]), Tick 1050] (init_world 1000))))) =
     [(1000, 7, JNull, [JNum 1]), (1100, 7, JNull, [JNum 2])] \<and>
   noTrailing (throttle 100 (JBool True) (JFun 7) JUndefined) = JBool True \<and>
   wrapper (throttle 100 (JBool True) (JFun 7) JUndefined) (JNull, [JNum 2])
       (run (throttle 100 (JBool True) (JFun 7) JUndefined)
          [Call (JNull, [JNum 1]), Tick 1050] (init_world 1000)) =
     (None, \<lparr>now = 1050, timers = [], next_id = 1, timeoutID = None, lastExec = 1000,
             executed = [(1000, 7, JNull, [JNum 1])]\<rparr>)"
  using
    throttle_mode_call[of "throttle 100 (JBool False) (JFun 7) JUndefined" 7 _ "[]" 1000
      "(JNull, [JNum 1])", OF _ _ refl]
    throttle_mode_call[of "throttle 100 (JBool False) (JFun 7) JUndefined" 7 _
      "[Call (JNull, [JNum 1]), Tick 1050]" 1000 "(JNull, [JNum 2])", OF _ _ refl]
    throttle_mode_call[of "throttle 100 (JBool True) (JFun 7) JUndefined" 7 _
      "[Call (JNull, [JNum 1]), Tick 1050]" 1000 "(JNull, [JNum 2])", OF _ _ refl]
  by (simp add: limiter_eval)

text \<open>
  Claim C1 as it is stated fails when \<^verbatim>\<open>noTrailing\<close> is \<^verbatim>\<open>true\<close>: the limiter is in
  throttle mode, the call at 1050 comes 50 ms after the execution at 1000, within the delay
  of 100, and no timer is scheduled for it; the callback never runs for that call.
\<close>

theorem throttle_noTrailing_counterexample:
  "debounceMode (throttle 100 (JBool True) (JFun 7) JUndefined) = JUndefined \<and>
   run (throttle 100 (JBool True) (JFun 7) JUndefined)
     [Call (JNull, [JNum 1]), Tick 1050] (init_world 1000) =
     \<lparr>now = 1050, timers = [], next_id = 1, timeoutID = None, lastExec = 1000,
      executed = [(1000, 7, JNull, [JNum 1])]\<rparr> \<and>
   wrapper (throttle 100 (JBool True) (JFun 7) JUndefined) (JNull, [JNum 2])
     \<lparr>now = 1050, timers = [], next_id = 1, timeoutID = None, lastExec = 1000,
      executed = [(1000, 7, JNull, [JNum 1])]\<rparr> =
     (None, \<lparr>now = 1050, timers = [], next_id = 1, timeoutID = None, lastExec = 1000,
      executed = [(1000, 7, JNull, [JNum 1])]\<rparr>) \<and>
   executed (tick (throttle 100 (JBool True) (JFun 7) JUndefined) 1100
     \<lparr>now = 1050, timers = [], next_id = 1, timeoutID = None, lastExec = 1000,
      executed = [(1000, 7, JNull, [JNum 1])]\<rparr>) = [(1000, 7, JNull, [JNum 1])]"
  by (simp add: limiter_eval)

text \<open>
  Claim C2. The two-argument form \<^verbatim>\<open>debounce(delay, callback)\<close>, the one the component
  uses for its resize handler, gives trailing debounce mode (\<^verbatim>\<open>debounceMode\<close> false). In
  that mode, with \<open>0 \<le> delay\<close> and at any state the limiter can reach, a call runs nothing
  itself, cancels the pending timer and leaves exactly one, due \<open>delay\<close> after the call and
  carrying its arguments. Hence a burst of calls, each less than \<open>delay\<close> after the one
  before, runs nothing while it lasts, and exactly one execution follows it, \<open>delay\<close> after
  the last call and with the arguments of the last call.
\<close>

theorem debounce_trailing_mode:
  assumes "0 \<le> d" and "w = run (debounce d (JFun f) JUndefined) es (init_world t0)"
  shows "debounce d (JFun f) JUndefined =
           \<lparr>delay = d, noTrailing = JUndefined, callback = JFun f, debounceMode = JBool False\<rparr> \<and>
         callResizeHandler p = debounce (debounceInterval p) (JFun handleResize_fn) JUndefined \<and>
         wrapper (debounce d (JFun f) JUndefined) c w =
           (None, w\<lparr>timers := [\<lparr>tid = next_id w, due = now w + d, act = Exec c\<rparr>],
                     next_id := Suc (next_id w), timeoutID := Some (next_id w)\<rparr>) \<and>
         (close_calls d (now w) tcs \<longrightarrow>
            executed (run (debounce d (JFun f) JUndefined) (Call c # burst tcs) w) = executed w \<and>
            executed (run (debounce d (JFun f) JUndefined)
                        (Call c # burst tcs @ [Tick (last_time (now w) tcs + d)]) w) =
              executed w @ [(last_time (now w) tcs + d, f, last_call c tcs)])"
proof -
  define L where "L = debounce d (JFun f) JUndefined"
  have L: "L = \<lparr>delay = d, noTrailing = JUndefined, callback = JFun f, debounceMode = JBool False\<rparr>"
    unfolding L_def by (rule debounce_two_args)
  have m: "debounceMode L = JBool False" "noTrailing L \<noteq> JBool True" "callback L = JFun f"
    "delay L = d" by (simp_all add: L)
  have d: "0 \<le> delay L" using assms(1) by (simp add: m)
  have o: "own_timer w" unfolding assms(2) by (rule own_timer_reach)
  have "step L (Call c) w =
      w\<lparr>timers := [\<lparr>tid = next_id w, due = now w + delay L, act = Exec c\<rparr>],
        next_id := Suc (next_id w), timeoutID := Some (next_id w)\<rparr>"
    using m(1,2) d o by (rule call_trailing_step)
  moreover have "fst (wrapper L c w) = None"
    using m(1,2) o by (simp add: wrapper_debounce_trailing)
  ultimately have a: "wrapper L c w =
      (None, w\<lparr>timers := [\<lparr>tid = next_id w, due = now w + d, act = Exec c\<rparr>],
                next_id := Suc (next_id w), timeoutID := Some (next_id w)\<rparr>)"
    by (simp add: m prod_eq_iff)
  have b: "executed (run L (Call c # burst tcs) w) = executed w"
    if "close_calls d (now w) tcs"
    using burst_quiet[OF m(1,2) d o, of tcs c] that by (simp add: m)
  have c: "executed (run L (Call c # burst tcs @ [Tick (last_time (now w) tcs + d)]) w) =
      executed w @ [(last_time (now w) tcs + d, f, last_call c tcs)]"
    if "close_calls d (now w) tcs"
    using burst_trailing[OF m(1,2,3) d o, of tcs c] that by (simp add: m)
  show ?thesis using a b c L unfolding L_def callResizeHandler_def by blast
qed

text \<open>A burst of three calls at 1000, 1100 and 1200 with a delay of 150.\<close>

theorem debounce_trailing_mode_witness:
  "(0::int) \<le> 150 \<and>
   close_calls 150 (now (run (debounce 150 (JFun 0) JUndefined) [Call (JNull, [])] (init_world 1000)))
     [(1100, JNull, [JNum 2]), (1200, JNull, [JNum 3])] \<and>
   executed (run (debounce 150 (JFun 0) JUndefined)
      (Call (JNull, [JNum 1]) # burst [(1100, JNull, [JNum 2]), (1200, JNull, [JNum 3])])
      (run (debounce 150 (JFun 0) JUndefined) [Call (JNull, [])] (init_world 1000))) = [] \<and>
   executed (run (debounce 150 (JFun 0) JUndefined)
      (Call (JNull, [JNum 1]) # burst [(1100, JNull, [JNum 2]), (1200, JNull, [JNum 3])] @
         [Tick 1350])
      (run (debounce 150 (JFun 0) JUndefined) [Call (JNull, [])] (init_world 1000))) =
     [(1350, 0, JNull, [JNum 3])]"
  using debounce_trailing_mode[of 150 _ 0 "[Call (JNull, [])]" 1000 _ "(JNull, [JNum 1])"
      "[(1100, JNull, [JNum 2]), (1200, JNull, [JNum 3])]", OF _ refl]
  by (simp add: limiter_eval last_time_def last_call_def)



section \<open>Properties of the component\<close>

subsection \<open>Rescaling\<close>

lemma scaleCanvas_noop:
  "target s = Inr (ratio, width, height) \<Longrightarrow> width = canvasWidth s \<Longrightarrow>
   height = canvasHeight s \<Longrightarrow> scaleCanvas s = (None, s)"
  by (simp add: scaleCanvas_def)

lemma scaleCanvas_redraw:
  assumes "canvas_ref s = Some cv" "target s = Inr (ratio, width, height)"
    "\<not> (width = canvasWidth s \<and> height = canvasHeight s)"
    "redrawOnResize (props s)" "signaturePad s = Some p"
  shows "scaleCanvas s =
    (None, s\<lparr>canvasWidth := width, canvasHeight := height,
              canvas_ref := Some (cv\<lparr>c_width := width, c_height := height,
                                     ctx_scale := (ratio, ratio)\<rparr>),
              signaturePad := Some (p\<lparr>empty_flag := False\<rparr>),
              trace := trace s @ [Pad ''toDataURL'' [], CanvasWidth width, CanvasHeight height,
                SetState width height, GetContext2d, CtxScale ratio ratio,
                Pad ''fromDataURL'' [JStr (pixels p)]]\<rparr>)"
  using assms
  by (auto simp add: scaleCanvas_def Let_def resize_canvas_def setState_def scale_context_def
      on_pad_def pad_fromDataURL_def)

lemma scaleCanvas_clear:
  assumes "canvas_ref s = Some cv" "target s = Inr (ratio, width, height)"
    "\<not> (width = canvasWidth s \<and> height = canvasHeight s)"
    "\<not> redrawOnResize (props s)" "signaturePad s = Some p"
  shows "scaleCanvas s =
    (None, s\<lparr>canvasWidth := width, canvasHeight := height,
              canvas_ref := Some (cv\<lparr>c_width := width, c_height := height,
                                     ctx_scale := (ratio, ratio)\<rparr>),
              signaturePad := Some (pad_clear p),
              trace := trace s @ [CanvasWidth width, CanvasHeight height,
                SetState width height, GetContext2d, CtxScale ratio ratio, Pad ''clear'' []]\<rparr>)"
  using assms
  by (auto simp add: scaleCanvas_def Let_def resize_canvas_def setState_def scale_context_def
      on_pad_def pad_clear_def)

lemma scaleCanvas_no_engine:
  assumes "canvas_ref s = Some cv" "target s = Inr (ratio, width, height)"
    "\<not> (width = canvasWidth s \<and> height = canvasHeight s)"
    "signaturePad s = None"
  shows "scaleCanvas s =
    (None, s\<lparr>canvasWidth := width, canvasHeight := height,
              canvas_ref := Some (cv\<lparr>c_width := width, c_height := height,
                                     ctx_scale := (ratio, ratio)\<rparr>),
              trace := trace s @ [CanvasWidth width, CanvasHeight height,
                SetState width height, GetContext2d, CtxScale ratio ratio]\<rparr>)"
  using assms
  by (auto simp add: scaleCanvas_def Let_def resize_canvas_def setState_def scale_context_def)

lemma target_cong:
  assumes "props s' = props s" "devicePixelRatio s' = devicePixelRatio s"
    "map_option offsetWidth (canvas_ref s') = map_option offsetWidth (canvas_ref s)"
    "map_option offsetHeight (canvas_ref s') = map_option offsetHeight (canvas_ref s)"
  shows "target s' = target s"
  using assms
  by (cases "canvas_ref s"; cases "canvas_ref s'") (simp_all add: target_def dimension_def)

lemma scaleCanvas_changed:
  assumes "canvas_ref s = Some cv" "target s = Inr (ratio, width, height)"
    "\<not> (width = canvasWidth s \<and> height = canvasHeight s)"
  shows "fst (scaleCanvas s) = None"
    "canvasWidth (snd (scaleCanvas s)) = width"
    "canvasHeight (snd (scaleCanvas s)) = height"
    "canvas_ref (snd (scaleCanvas s)) =
       Some (cv\<lparr>c_width := width, c_height := height, ctx_scale := (ratio, ratio)\<rparr>)"
    "props (snd (scaleCanvas s)) = props s"
    "devicePixelRatio (snd (scaleCanvas s)) = devicePixelRatio s"
    "resize_listener (snd (scaleCanvas s)) = resize_listener s"
    "dimension_changes (trace (snd (scaleCanvas s))) = Suc (dimension_changes (trace s))"
proof -
  consider (r) p where "redrawOnResize (props s)" "signaturePad s = Some p"
    | (c) p where "\<not> redrawOnResize (props s)" "signaturePad s = Some p"
    | (n) "signaturePad s = None"
    by (cases "signaturePad s") auto
  then have "fst (scaleCanvas s) = None \<and>
    canvasWidth (snd (scaleCanvas s)) = width \<and>
    canvasHeight (snd (scaleCanvas s)) = height \<and>
    canvas_ref (snd (scaleCanvas s)) =
       Some (cv\<lparr>c_width := width, c_height := height, ctx_scale := (ratio, ratio)\<rparr>) \<and>
    props (snd (scaleCanvas s)) = props s \<and>
    devicePixelRatio (snd (scaleCanvas s)) = devicePixelRatio s \<and>
    resize_listener (snd (scaleCanvas s)) = resize_listener s \<and>
    dimension_changes (trace (snd (scaleCanvas s))) = Suc (dimension_changes (trace s))"
  proof cases
    case r
    show ?thesis unfolding scaleCanvas_redraw[OF assms r] by (simp add: dimension_changes_def)
  next
    case c
    show ?thesis unfolding scaleCanvas_clear[OF assms c] by (simp add: dimension_changes_def)
  next
    case n
    show ?thesis unfolding scaleCanvas_no_engine[OF assms n] by (simp add: dimension_changes_def)
  qed
  then show "fst (scaleCanvas s) = None"
    "canvasWidth (snd (scaleCanvas s)) = width"
    "canvasHeight (snd (scaleCanvas s)) = height"
    "canvas_ref (snd (scaleCanvas s)) =
       Some (cv\<lparr>c_width := width, c_height := height, ctx_scale := (ratio, ratio)\<rparr>)"
    "props (snd (scaleCanvas s)) = props s"
    "devicePixelRatio (snd (scaleCanvas s)) = devicePixelRatio s"
    "resize_listener (snd (scaleCanvas s)) = resize_listener s"
    "dimension_changes (trace (snd (scaleCanvas s))) = Suc (dimension_changes (trace s))"
    by simp_all
qed

lemma target_with_canvas:
  "canvas_ref s = Some cv \<Longrightarrow> \<exists>ratio width height. target s = Inr (ratio, width, height)"
  by (simp add: target_def dimension_def Let_def)

lemma scaleCanvas_twice:
  assumes "canvas_ref s = Some cv" "target s = Inr (ratio, width, height)"
  shows "scaleCanvas (snd (scaleCanvas s)) = (None, snd (scaleCanvas s))"
proof (cases "width = canvasWidth s \<and> height = canvasHeight s")
  case True
  then have "scaleCanvas s = (None, s)" using assms(2) by (simp add: scaleCanvas_noop)
  then show ?thesis by simp
next
  case False
  note ch = scaleCanvas_changed[OF assms False]
  have "target (snd (scaleCanvas s)) = target s"
    by (rule target_cong) (simp_all add: ch assms(1))
  then have "target (snd (scaleCanvas s)) = Inr (ratio, width, height)" using assms(2) by simp
  then show ?thesis by (rule scaleCanvas_noop) (simp_all add: ch)
qed

subsection \<open>Mounting and unmounting\<close>

lemma scaleCanvas_with_canvas:
  assumes "canvas_ref s = Some cv"
  shows "fst (scaleCanvas s) = None"
    "props (snd (scaleCanvas s)) = props s"
    "resize_listener (snd (scaleCanvas s)) = resize_listener s"
    "canvas_ref (snd (scaleCanvas s)) \<noteq> None"
proof -
  obtain ratio width height where t: "target s = Inr (ratio, width, height)"
    using target_with_canvas[OF assms] by blast
  have "fst (scaleCanvas s) = None \<and> props (snd (scaleCanvas s)) = props s \<and>
    resize_listener (snd (scaleCanvas s)) = resize_listener s \<and>
    canvas_ref (snd (scaleCanvas s)) \<noteq> None"
  proof (cases "width = canvasWidth s \<and> height = canvasHeight s")
    case True
    then have "scaleCanvas s = (None, s)" using t by (simp add: scaleCanvas_noop)
    then show ?thesis using assms by simp
  next
    case False
    show ?thesis using scaleCanvas_changed[OF assms t False] by simp
  qed
  then show "fst (scaleCanvas s) = None"
    "props (snd (scaleCanvas s)) = props s"
    "resize_listener (snd (scaleCanvas s)) = resize_listener s"
    "canvas_ref (snd (scaleCanvas s)) \<noteq> None"
    by simp_all
qed

lemma scaleCanvas_trace:
  assumes "canvas_ref s = Some cv"
  shows "\<exists>xs. trace (snd (scaleCanvas s)) = trace s @ xs \<and> AddResizeListener \<notin> set xs"
proof -
  obtain ratio width height where t: "target s = Inr (ratio, width, height)"
    using target_with_canvas[OF assms] by blast
  show ?thesis
  proof (cases "width = canvasWidth s \<and> height = canvasHeight s")
    case True
    then have "scaleCanvas s = (None, s)" using t by (simp add: scaleCanvas_noop)
    then show ?thesis by simp
  next
    case False
    consider (r) p where "redrawOnResize (props s)" "signaturePad s = Some p"
      | (c) p where "\<not> redrawOnResize (props s)" "signaturePad s = Some p"
      | (n) "signaturePad s = None"
      by (cases "signaturePad s") auto
    then show ?thesis
    proof cases
      case r
      show ?thesis unfolding scaleCanvas_redraw[OF assms t False r] by simp
    next
      case c
      show ?thesis unfolding scaleCanvas_clear[OF assms t False c] by simp
    next
      case n
      show ?thesis unfolding scaleCanvas_no_engine[OF assms t False n] by simp
    qed
  qed
qed

lemma mount_with_canvas:
  assumes c: "canvas_ref s = Some cv"
  shows "fst (componentDidMount s) = None"
    "resize_listener (snd (componentDidMount s)) = (listens (props s) \<or> resize_listener s)"
    "(AddResizeListener \<in> set (trace (snd (componentDidMount s)))) =
       (listens (props s) \<or> AddResizeListener \<in> set (trace s))"
proof -
  define s1 where "s1 = (if listens (props s)
       then s\<lparr>canvas_ref := Some (cv\<lparr>style_width := ''100%''\<rparr>),
              trace := trace s @ [CanvasStyleWidth ''100%'']\<rparr>
       else s)"
  define s2 where "s2 = snd (scaleCanvas s1)"
  have c1: "canvas_ref s1 = Some (if listens (props s) then cv\<lparr>style_width := ''100%''\<rparr> else cv)"
    by (simp add: s1_def c)
  have p1: "props s1 = props s" "resize_listener s1 = resize_listener s"
    by (simp_all add: s1_def)
  have t1: "(AddResizeListener \<in> set (trace s1)) = (AddResizeListener \<in> set (trace s))"
    by (simp add: s1_def)
  have f2: "fst (scaleCanvas s1) = None" using c1 by (rule scaleCanvas_with_canvas)
  have p2: "props s2 = props s" "resize_listener s2 = resize_listener s"
    unfolding s2_def using scaleCanvas_with_canvas(2,3)[OF c1] by (simp_all add: p1)
  obtain xs where xs: "trace s2 = trace s1 @ xs" "AddResizeListener \<notin> set xs"
    unfolding s2_def using scaleCanvas_trace[OF c1] by blast
  have t2: "(AddResizeListener \<in> set (trace s2)) = (AddResizeListener \<in> set (trace s))"
    using xs t1 by simp
  have "componentDidMount s =
      (case fst (scaleCanvas s1) of
         Some e \<Rightarrow> (Some e, snd (scaleCanvas s1))
       | None \<Rightarrow>
           (let s3 = (if listens (props (snd (scaleCanvas s1)))
                      then (snd (scaleCanvas s1))\<lparr>resize_listener := True,
                             trace := trace (snd (scaleCanvas s1)) @ [AddResizeListener]\<rparr>
                      else snd (scaleCanvas s1))
            in (None, s3\<lparr>signaturePad := Some new_SigPad, trace := trace s3 @ [NewSigPad]\<rparr>)))"
    unfolding componentDidMount_def s1_def by (simp add: c Let_def)
  then have m: "componentDidMount s =
      (None, (if listens (props s)
              then s2\<lparr>resize_listener := True, trace := trace s2 @ [AddResizeListener]\<rparr>
              else s2)
         \<lparr>signaturePad := Some new_SigPad,
           trace := trace (if listens (props s)
              then s2\<lparr>resize_listener := True, trace := trace s2 @ [AddResizeListener]\<rparr>
              else s2) @ [NewSigPad]\<rparr>)"
    unfolding f2 s2_def[symmetric] by (simp add: p2 Let_def)
  show "fst (componentDidMount s) = None" by (simp add: m)
  show "resize_listener (snd (componentDidMount s)) = (listens (props s) \<or> resize_listener s)"
    by (simp add: m p2)
  show "(AddResizeListener \<in> set (trace (snd (componentDidMount s)))) =
       (listens (props s) \<or> AddResizeListener \<in> set (trace s))"
    by (simp add: m t2)
qed

lemma unmount_listener:
  "trace (snd (componentWillUnmount s)) =
     trace s @ (if listens (props s) then [RemoveResizeListener] else []) @
       (if signaturePad s = None then [] else [Pad ''off'' []])"
  "resize_listener (snd (componentWillUnmount s)) = (resize_listener s \<and> \<not> listens (props s))"
  "signaturePad s \<noteq> None \<Longrightarrow> fst (componentWillUnmount s) = None"
  by (cases "signaturePad s"; simp add: componentWillUnmount_def off_def on_pad_def Let_def)+

lemma callable_iff: "callable fn = (\<exists>f. fn = JFun f)"
  by (cases fn) (simp_all add: callable_def)

section \<open>Claims about the component\<close>

lemmas component_eval =
  scaleCanvas_def target_def dimension_def js_or_def present_def on_pad_def resize_canvas_def
  setState_def scale_context_def pad_clear_def pad_fromDataURL_def construct_def ref_def
  componentDidMount_def componentWillUnmount_def listens_def new_SigPad_def off_def
  dimension_changes_def defaultProps_def canvas_300x150_def canvas_hidden_def
  drawn_then_moved_def fromDataURL_def toDataURL_def isEmpty_def handleResize_def Let_def

text \<open>
  Claim C5. A rescale that changes the dimensions, on a component whose canvas is present,
  raises no error. With \<^verbatim>\<open>redrawOnResize\<close> and an engine attached, the engine's picture
  is serialised (\<^verbatim>\<open>toDataURL\<close>) before the dimensions of the canvas are assigned and is
  given back to the engine (\<^verbatim>\<open>fromDataURL\<close>, with that very data URL) after them, so the
  engine holds the same picture as before and \<^verbatim>\<open>toDataURL\<close> answers the same. Without
  \<^verbatim>\<open>redrawOnResize\<close> and with an engine attached, the engine is cleared after the resize
  and reports that it is empty. With no engine attached, none of the three engine calls is
  made.
\<close>

theorem scaleCanvas_preserve_or_clear:
  assumes "canvas_ref s = Some cv" and "target s = Inr (ratio, width, height)"
    and "\<not> (width = canvasWidth s \<and> height = canvasHeight s)"
  shows "fst (scaleCanvas s) = None \<and>
    (\<forall>p. redrawOnResize (props s) \<and> signaturePad s = Some p \<longrightarrow>
       trace (snd (scaleCanvas s)) =
         trace s @ [Pad ''toDataURL'' [], CanvasWidth width, CanvasHeight height,
           SetState width height, GetContext2d, CtxScale ratio ratio,
           Pad ''fromDataURL'' [JStr (pixels p)]] \<and>
       signaturePad (snd (scaleCanvas s)) = Some (p\<lparr>empty_flag := False\<rparr>) \<and>
       fst (toDataURL mime (snd (scaleCanvas s))) = fst (toDataURL mime s)) \<and>
    (\<forall>p. \<not> redrawOnResize (props s) \<and> signaturePad s = Some p \<longrightarrow>
       trace (snd (scaleCanvas s)) =
         trace s @ [CanvasWidth width, CanvasHeight height,
           SetState width height, GetContext2d, CtxScale ratio ratio, Pad ''clear'' []] \<and>
       signaturePad (snd (scaleCanvas s)) = Some (pad_clear p) \<and>
       fst (isEmpty (snd (scaleCanvas s))) = Inr True) \<and>
    (signaturePad s = None \<longrightarrow>
       trace (snd (scaleCanvas s)) =
         trace s @ [CanvasWidth width, CanvasHeight height,
           SetState width height, GetContext2d, CtxScale ratio ratio] \<and>
       signaturePad (snd (scaleCanvas s)) = None)"
proof -
  have e: "fst (scaleCanvas s) = None" using assms by (rule scaleCanvas_changed)
  have r: "trace (snd (scaleCanvas s)) =
         trace s @ [Pad ''toDataURL'' [], CanvasWidth width, CanvasHeight height,
           SetState width height, GetContext2d, CtxScale ratio ratio,
           Pad ''fromDataURL'' [JStr (pixels p)]] \<and>
       signaturePad (snd (scaleCanvas s)) = Some (p\<lparr>empty_flag := False\<rparr>) \<and>
       fst (toDataURL mime (snd (scaleCanvas s))) = fst (toDataURL mime s)"
    if "redrawOnResize (props s)" "signaturePad s = Some p" for p
    unfolding scaleCanvas_redraw[OF assms that]
    using that by (simp add: toDataURL_def on_pad_def)
  have c: "trace (snd (scaleCanvas s)) =
         trace s @ [CanvasWidth width, CanvasHeight height,
           SetState width height, GetContext2d, CtxScale ratio ratio, Pad ''clear'' []] \<and>
       signaturePad (snd (scaleCanvas s)) = Some (pad_clear p) \<and>
       fst (isEmpty (snd (scaleCanvas s))) = Inr True"
    if "\<not> redrawOnResize (props s)" "signaturePad s = Some p" for p
    unfolding scaleCanvas_clear[OF assms that]
    by (simp add: isEmpty_def on_pad_def pad_clear_def)
  have n: "trace (snd (scaleCanvas s)) =
         trace s @ [CanvasWidth width, CanvasHeight height,
           SetState width height, GetContext2d, CtxScale ratio ratio] \<and>
       signaturePad (snd (scaleCanvas s)) = None"
    if "signaturePad s = None"
    unfolding scaleCanvas_no_engine[OF assms that] using that by simp
  show ?thesis using e r c n by blast
qed

text \<open>
  A drawn component whose pixel ratio went from 2 to 3, with and without
  \<^verbatim>\<open>redrawOnResize\<close>, and a component that has no engine yet.
\<close>

theorem scaleCanvas_preserve_or_clear_witness:
  "canvas_ref (drawn_then_moved True) =
     Some (canvas_300x150\<lparr>c_width := 600, c_height := 300, style_width := ''100%'',
                           ctx_scale := (2, 2)\<rparr>) \<and>
   target (drawn_then_moved True) = Inr (3, 900, 450) \<and>
   \<not> (900 = canvasWidth (drawn_then_moved True) \<and> 450 = canvasHeight (drawn_then_moved True)) \<and>
   redrawOnResize (props (drawn_then_moved True)) \<and>
   map_option pixels (signaturePad (drawn_then_moved True)) = Some ''X'' \<and>
   map_option pixels (signaturePad (snd (scaleCanvas (drawn_then_moved True)))) = Some ''X'' \<and>
   \<not> redrawOnResize (props (drawn_then_moved False)) \<and>
   map_option pixels (signaturePad (drawn_then_moved False)) = Some ''X'' \<and>
   map_option pixels (signaturePad (snd (scaleCanvas (drawn_then_moved False)))) = Some [] \<and>
   fst (isEmpty (snd (scaleCanvas (drawn_then_moved False)))) = Inr True \<and>
   signaturePad (ref (Some canvas_300x150) (construct defaultProps (Some 2))) = None \<and>
   scaleCanvas (ref (Some canvas_300x150) (construct defaultProps (Some 2))) =
     (None, (construct defaultProps (Some 2))
        \<lparr>canvasWidth := 600, canvasHeight := 300,
          canvas_ref := Some (canvas_300x150\<lparr>c_width := 600, c_height := 300,
                                              ctx_scale := (2, 2)\<rparr>),
          trace := [CanvasWidth 600, CanvasHeight 300, SetState 600 300, GetContext2d,
                    CtxScale 2 2]\<rparr>)"
  using
    scaleCanvas_preserve_or_clear[of "drawn_then_moved True"
      "canvas_300x150\<lparr>c_width := 600, c_height := 300, style_width := ''100%'',
                           ctx_scale := (2, 2)\<rparr>" 3 900 450 JUndefined]
    scaleCanvas_preserve_or_clear[of "drawn_then_moved False"
      "canvas_300x150\<lparr>c_width := 600, c_height := 300, style_width := ''100%'',
                           ctx_scale := (2, 2)\<rparr>" 3 900 450 JUndefined]
    scaleCanvas_preserve_or_clear[of "ref (Some canvas_300x150) (construct defaultProps (Some 2))"
      canvas_300x150 2 600 300 JUndefined]
  by (simp add: component_eval)

text \<open>
  Claim C6, as amended. When the target width and height equal the tracked
  \<^verbatim>\<open>canvasWidth\<close> and \<^verbatim>\<open>canvasHeight\<close>, \<^verbatim>\<open>scaleCanvas\<close> returns with the whole
  component as it was: canvas, tracked state, engine and trace. With the canvas present, a
  rescale leaves the target unchanged, so a second rescale right after it is such a no-op;
  the two calls together assign the dimensions of the canvas at most once: once when the
  target differed from the tracked dimensions before the first call, not at all when it
  already equalled them.
\<close>

theorem scaleCanvas_idempotent:
  assumes "target s = Inr (ratio, width, height)"
  shows "(width = canvasWidth s \<and> height = canvasHeight s \<longrightarrow> scaleCanvas s = (None, s)) \<and>
    (canvas_ref s \<noteq> None \<longrightarrow>
       target (snd (scaleCanvas s)) = target s \<and>
       scaleCanvas (snd (scaleCanvas s)) = (None, snd (scaleCanvas s)) \<and>
       dimension_changes (trace (snd (scaleCanvas (snd (scaleCanvas s))))) =
         dimension_changes (trace s) +
           (if width = canvasWidth s \<and> height = canvasHeight s then 0 else 1))"
proof -
  have a: "scaleCanvas s = (None, s)" if "width = canvasWidth s \<and> height = canvasHeight s"
    using assms that by (simp add: scaleCanvas_noop)
  have b: "target (snd (scaleCanvas s)) = target s \<and>
       scaleCanvas (snd (scaleCanvas s)) = (None, snd (scaleCanvas s)) \<and>
       dimension_changes (trace (snd (scaleCanvas (snd (scaleCanvas s))))) =
         dimension_changes (trace s) +
           (if width = canvasWidth s \<and> height = canvasHeight s then 0 else 1)"
    if h: "canvas_ref s \<noteq> None"
  proof -
    obtain cv where cv: "canvas_ref s = Some cv" using h by blast
    have tw: "scaleCanvas (snd (scaleCanvas s)) = (None, snd (scaleCanvas s))"
      using cv assms by (rule scaleCanvas_twice)
    show ?thesis
    proof (cases "width = canvasWidth s \<and> height = canvasHeight s")
      case True
      then show ?thesis using a by simp
    next
      case False
      note ch = scaleCanvas_changed[OF cv assms False]
      have "target (snd (scaleCanvas s)) = target s"
        by (rule target_cong) (simp_all add: ch cv)
      then show ?thesis using False by (simp add: tw ch)
    qed
  qed
  show ?thesis using a b by blast
qed

text \<open>Two rescales after the pixel ratio went from 2 to 3: the first one resizes to 900 by 450.\<close>

theorem scaleCanvas_idempotent_witness:
  "target (drawn_then_moved False) = Inr (3, 900, 450) \<and>
   canvas_ref (drawn_then_moved False) \<noteq> None \<and>
   canvasWidth (drawn_then_moved False) = 600 \<and>
   dimension_changes (trace (drawn_then_moved False)) = 1 \<and>
   dimension_changes (trace (snd (scaleCanvas (drawn_then_moved False)))) = 2 \<and>
   dimension_changes
     (trace (snd (scaleCanvas (snd (scaleCanvas (drawn_then_moved False)))))) = 2 \<and>
   target (snd (scaleCanvas (drawn_then_moved False))) = Inr (3, 900, 450) \<and>
   canvasWidth (snd (scaleCanvas (drawn_then_moved False))) = 900 \<and>
   canvasHeight (snd (scaleCanvas (drawn_then_moved False))) = 450 \<and>
   scaleCanvas (snd (scaleCanvas (drawn_then_moved False))) =
     (None, snd (scaleCanvas (drawn_then_moved False)))"
  using scaleCanvas_idempotent[of "drawn_then_moved False" 3 900 450]
    scaleCanvas_idempotent[of "snd (scaleCanvas (drawn_then_moved False))" 3 900 450]
  by (simp add: component_eval)

text \<open>
  Claim C6 as it is stated fails where the tracked dimensions already equal the target: on
  a mounted component, two resize events that leave the size of the canvas at 600 by 300
  run the rescale twice with identical targets, and neither call assigns the dimensions, so
  there is no dimension-changing effect, not one.
\<close>

theorem rescale_twice_counterexample:
  "target (snd (componentDidMount (ref (Some canvas_300x150) (construct defaultProps (Some 2))))) =
     Inr (2, 600, 300) \<and>
   target (snd (handleResize
      (snd (componentDidMount (ref (Some canvas_300x150) (construct defaultProps (Some 2))))))) =
     Inr (2, 600, 300) \<and>
   dimension_changes (trace (snd (handleResize (snd (handleResize
      (snd (componentDidMount (ref (Some canvas_300x150) (construct defaultProps (Some 2))))))))))
   = dimension_changes (trace
      (snd (componentDidMount (ref (Some canvas_300x150) (construct defaultProps (Some 2))))))"
  by (simp add: component_eval)

text \<open>
  Claim C7, as amended. \<^verbatim>\<open>componentDidMount\<close> is guarded on the canvas reference:
  without a canvas it does nothing and raises nothing. Inside \<^verbatim>\<open>scaleCanvas\<close> the engine
  calls are guarded on the engine: with a canvas and no engine it raises nothing and makes
  no engine call. The proxied engine methods and the plain property accessors have no guard:
  called before the engine exists, each raises a TypeError and changes nothing.
\<close>

theorem guards_before_engine:
  "(canvas_ref s = None \<longrightarrow> componentDidMount s = (None, s)) \<and>
   (signaturePad s = None \<and> canvas_ref s \<noteq> None \<longrightarrow>
      fst (scaleCanvas s) = None \<and> signaturePad (snd (scaleCanvas s)) = None) \<and>
   (signaturePad s = None \<longrightarrow>
      isEmpty s = (Inl TypeError, s) \<and> clear_pad s = (Inl TypeError, s) \<and>
      fromDataURL d s = (Inl TypeError, s) \<and> toDataURL mime s = (Inl TypeError, s) \<and>
      fromData d s = (Inl TypeError, s) \<and> toData s = (Inl TypeError, s) \<and>
      off s = (Inl TypeError, s) \<and> on s = (Inl TypeError, s) \<and>
      get_property k s = Inl TypeError \<and> set_property k v s = (Some TypeError, s))"
proof -
  have a: "componentDidMount s = (None, s)" if "canvas_ref s = None"
    using that by (simp add: componentDidMount_def)
  have b: "fst (scaleCanvas s) = None \<and> signaturePad (snd (scaleCanvas s)) = None"
    if n: "signaturePad s = None" and h: "canvas_ref s \<noteq> None"
  proof -
    obtain cv where cv: "canvas_ref s = Some cv" using h by blast
    obtain ratio width height where t: "target s = Inr (ratio, width, height)"
      using target_with_canvas[OF cv] by blast
    show ?thesis
    proof (cases "width = canvasWidth s \<and> height = canvasHeight s")
      case True
      then have "scaleCanvas s = (None, s)" using t by (simp add: scaleCanvas_noop)
      then show ?thesis using n by simp
    next
      case False
      show ?thesis unfolding scaleCanvas_no_engine[OF cv t False n] using n by simp
    qed
  qed
  have c: "isEmpty s = (Inl TypeError, s) \<and> clear_pad s = (Inl TypeError, s) \<and>
      fromDataURL d s = (Inl TypeError, s) \<and> toDataURL mime s = (Inl TypeError, s) \<and>
      fromData d s = (Inl TypeError, s) \<and> toData s = (Inl TypeError, s) \<and>
      off s = (Inl TypeError, s) \<and> on s = (Inl TypeError, s) \<and>
      get_property k s = Inl TypeError \<and> set_property k v s = (Some TypeError, s)"
    if "signaturePad s = None"
    using that
    by (simp add: isEmpty_def clear_pad_def fromDataURL_def toDataURL_def fromData_def
        toData_def off_def on_def get_property_def set_property_def on_pad_def)
  show ?thesis using a b c by blast
qed

text \<open>A component right after its construction, and one whose canvas is rendered but has no engine.\<close>

theorem guards_before_engine_witness:
  "canvas_ref (construct defaultProps (Some 2)) = None \<and>
   signaturePad (construct defaultProps (Some 2)) = None \<and>
   componentDidMount (construct defaultProps (Some 2)) = (None, construct defaultProps (Some 2)) \<and>
   toData (construct defaultProps (Some 2)) = (Inl TypeError, construct defaultProps (Some 2)) \<and>
   canvas_ref (ref (Some canvas_300x150) (construct defaultProps (Some 2))) \<noteq> None \<and>
   signaturePad (ref (Some canvas_300x150) (construct defaultProps (Some 2))) = None \<and>
   fst (scaleCanvas (ref (Some canvas_300x150) (construct defaultProps (Some 2)))) = None"
  using guards_before_engine[of "construct defaultProps (Some 2)" JUndefined JUndefined DotSize
      JUndefined]
    guards_before_engine[of "ref (Some canvas_300x150) (construct defaultProps (Some 2))"
      JUndefined JUndefined DotSize JUndefined]
  by (simp add: construct_def ref_def)

text \<open>
  Claim C7 as it is stated fails: on a component that was constructed and not yet mounted,
  \<^verbatim>\<open>isEmpty()\<close> is not skipped in silence, it raises a TypeError.
\<close>

theorem proxy_before_mount_counterexample:
  "signaturePad (construct defaultProps (Some 2)) = None \<and>
   fst (isEmpty (construct defaultProps (Some 2))) = Inl TypeError"
  by (simp add: construct_def isEmpty_def on_pad_def)

text \<open>
  Claim C8. The component listens to resize events unless both \<^verbatim>\<open>width\<close> and
  \<^verbatim>\<open>height\<close> are given (given means truthy: a dimension of 0 counts as absent, as in the
  source). Mounting a freshly constructed component whose canvas is rendered raises nothing
  and registers the resize handler exactly when the component listens; unmounting, from any
  state, removes the handler exactly when the component listens, and then turns the engine
  off; after a mount the unmount raises nothing.
\<close>

theorem resize_listener_lifecycle:
  "listens p = (\<not> (present (p_width p) \<and> present (p_height p))) \<and>
   fst (componentDidMount (ref (Some cv) (construct p dpr))) = None \<and>
   resize_listener (snd (componentDidMount (ref (Some cv) (construct p dpr)))) = listens p \<and>
   (AddResizeListener \<in> set (trace (snd (componentDidMount (ref (Some cv) (construct p dpr))))))
     = listens p \<and>
   trace (snd (componentWillUnmount s)) =
     trace s @ (if listens (props s) then [RemoveResizeListener] else []) @
       (if signaturePad s = None then [] else [Pad ''off'' []]) \<and>
   resize_listener (snd (componentWillUnmount s)) = (resize_listener s \<and> \<not> listens (props s)) \<and>
   fst (componentWillUnmount (snd (componentDidMount (ref (Some cv) (construct p dpr))))) = None"
proof -
  let ?s = "ref (Some cv) (construct p dpr)"
  have c: "canvas_ref ?s = Some cv" by (simp add: ref_def)
  have i: "props ?s = p" "\<not> resize_listener ?s" "AddResizeListener \<notin> set (trace ?s)"
    by (simp_all add: ref_def construct_def)
  have l: "listens p = (\<not> (present (p_width p) \<and> present (p_height p)))"
    by (auto simp add: listens_def)
  have "signaturePad (snd (componentDidMount ?s)) \<noteq> None"
    by (simp add: componentDidMount_def ref_def Let_def scaleCanvas_with_canvas(1)
        split: option.splits)
  then have u: "fst (componentWillUnmount (snd (componentDidMount ?s))) = None"
    by (rule unmount_listener(3))
  show ?thesis
    using mount_with_canvas[OF c] unmount_listener(1,2)[of s] l u by (simp add: i)
qed

text \<open>No dimension given, both given, and only the width given.\<close>

theorem resize_listener_lifecycle_witness:
  "\<not> (present (p_width defaultProps) \<and> present (p_height defaultProps)) \<and>
   resize_listener (snd (componentDidMount (ref (Some canvas_300x150)
      (construct defaultProps (Some 2))))) \<and>
   \<not> resize_listener (snd (componentWillUnmount (snd (componentDidMount
      (ref (Some canvas_300x150) (construct defaultProps (Some 2))))))) \<and>
   present (p_width (defaultProps\<lparr>p_width := Some 400, p_height := Some 200\<rparr>)) \<and>
   present (p_height (defaultProps\<lparr>p_width := Some 400, p_height := Some 200\<rparr>)) \<and>
   \<not> resize_listener (snd (componentDidMount (ref (Some canvas_300x150)
      (construct (defaultProps\<lparr>p_width := Some 400, p_height := Some 200\<rparr>) (Some 2))))) \<and>
   RemoveResizeListener \<notin> set (trace (snd (componentWillUnmount (snd (componentDidMount
      (ref (Some canvas_300x150)
         (construct (defaultProps\<lparr>p_width := Some 400, p_height := Some 200\<rparr>) (Some 2)))))))) \<and>
   resize_listener (snd (componentDidMount (ref (Some canvas_300x150)
      (construct (defaultProps\<lparr>p_width := Some 400\<rparr>) (Some 2)))))"
  using
    resize_listener_lifecycle[of defaultProps canvas_300x150 "Some 2"
      "snd (componentDidMount (ref (Some canvas_300x150) (construct defaultProps (Some 2))))"]
    resize_listener_lifecycle[of "defaultProps\<lparr>p_width := Some 400, p_height := Some 200\<rparr>"
      canvas_300x150 "Some 2"
      "snd (componentDidMount (ref (Some canvas_300x150)
         (construct (defaultProps\<lparr>p_width := Some 400, p_height := Some 200\<rparr>) (Some 2))))"]
    resize_listener_lifecycle[of "defaultProps\<lparr>p_width := Some 400\<rparr>"
      canvas_300x150 "Some 2" "construct defaultProps (Some 2)"]
  by (simp add: component_eval)

text \<open>
  Claim C9. A value is accepted by the setters of \<^verbatim>\<open>onBegin\<close> and \<^verbatim>\<open>onEnd\<close> exactly
  when it is a function. Assigning anything else raises the error
  \<^verbatim>\<open>Invalid argument passed to onBegin()\<close> (or \<^verbatim>\<open>onEnd()\<close>) from the assignment itself;
  assigning a function, with the engine attached, raises nothing and stores the function in
  the engine's property.
\<close>

theorem event_callback_setters:
  "callable fn = (\<exists>f. fn = JFun f) \<and>
   (\<not> callable fn \<longrightarrow>
      set_onBegin fn s = (Some (Error ''Invalid argument passed to onBegin()''), s) \<and>
      set_onEnd fn s = (Some (Error ''Invalid argument passed to onEnd()''), s)) \<and>
   (\<forall>p. callable fn \<and> signaturePad s = Some p \<longrightarrow>
      set_onBegin fn s = (None, s\<lparr>signaturePad := Some (p\<lparr>pad_onBegin := fn\<rparr>)\<rparr>) \<and>
      set_onEnd fn s = (None, s\<lparr>signaturePad := Some (p\<lparr>pad_onEnd := fn\<rparr>)\<rparr>))"
  using callable_iff[of fn] by (simp add: set_onBegin_def set_onEnd_def)

text \<open>A string, \<^verbatim>\<open>undefined\<close> and a function, assigned on a mounted component.\<close>

theorem event_callback_setters_witness:
  "\<not> callable (JStr ''draw'') \<and>
   set_onBegin (JStr ''draw'') (drawn_then_moved False) =
     (Some (Error ''Invalid argument passed to onBegin()''), drawn_then_moved False) \<and>
   \<not> callable JUndefined \<and>
   fst (set_onEnd JUndefined (drawn_then_moved False)) =
     Some (Error ''Invalid argument passed to onEnd()'') \<and>
   callable (JFun 5) \<and> signaturePad (drawn_then_moved False) \<noteq> None \<and>
   fst (set_onBegin (JFun 5) (drawn_then_moved False)) = None \<and>
   map_option pad_onBegin (signaturePad (snd (set_onBegin (JFun 5) (drawn_then_moved False)))) =
     Some (JFun 5) \<and>
   map_option pad_onEnd (signaturePad (snd (set_onEnd (JFun 5) (drawn_then_moved False)))) =
     Some (JFun 5)"
  using event_callback_setters[of "JStr ''draw''" "drawn_then_moved False"]
    event_callback_setters[of JUndefined "drawn_then_moved False"]
    event_callback_setters[of "JFun 5" "drawn_then_moved False"]
  by (simp add: component_eval callable_def set_onBegin_def set_onEnd_def)

text \<open>
  Claim C10. The check comes before the assignment: assigning a value that is not callable
  raises the configuration error, and whenever a setter of \<^verbatim>\<open>onBegin\<close> or \<^verbatim>\<open>onEnd\<close>
  raises, the component, and with it the engine's \<^verbatim>\<open>onBegin\<close> and \<^verbatim>\<open>onEnd\<close>, is as it
  was before.
\<close>

theorem setters_atomic_on_error:
  "(\<not> callable fn \<longrightarrow>
      fst (set_onBegin fn s) = Some (Error ''Invalid argument passed to onBegin()'') \<and>
      fst (set_onEnd fn s) = Some (Error ''Invalid argument passed to onEnd()'')) \<and>
   (fst (set_onBegin fn s) \<noteq> None \<longrightarrow> snd (set_onBegin fn s) = s) \<and>
   (fst (set_onEnd fn s) \<noteq> None \<longrightarrow> snd (set_onEnd fn s) = s)"
  by (simp add: set_onBegin_def set_onEnd_def split: option.splits)

text \<open>A number and \<^verbatim>\<open>null\<close>, assigned on a mounted component.\<close>

theorem setters_atomic_on_error_witness:
  "\<not> callable (JNum 3) \<and>
   fst (set_onBegin (JNum 3) (drawn_then_moved False)) \<noteq> None \<and>
   snd (set_onBegin (JNum 3) (drawn_then_moved False)) = drawn_then_moved False \<and>
   fst (set_onEnd JNull (drawn_then_moved False)) \<noteq> None \<and>
   snd (set_onEnd JNull (drawn_then_moved False)) = drawn_then_moved False \<and>
   map_option pad_onEnd (signaturePad (snd (set_onEnd JNull (drawn_then_moved False)))) =
     Some JUndefined"
  using setters_atomic_on_error[of "JNum 3" "drawn_then_moved False"]
    setters_atomic_on_error[of JNull "drawn_then_moved False"]
  by (simp add: component_eval callable_def set_onBegin_def set_onEnd_def)

end
